theory Spec2Isabelle
  imports Main "HOL-Library.Sublist"
begin

section \<open>Exceptions\<close>

text \<open>
  The Python sources raise exceptions; none of the three modules contains a
  \<^verbatim>\<open>try\<close> statement.  An exception is modelled as the left summand of a
  result.  \<open>NetworkFailure\<close> stands for whatever the HTTP client or the site
  finder raises; its argument identifies the exception object.
\<close>

datatype error =
    NetworkFailure string
  | UnicodeDecodeError
  | AttributeError
  | TypeError
  | KeyError

section \<open>cve\_scrapper.py: the version tokenizer\<close>

text \<open>
  Python strings are modelled as \<open>string\<close>; \<^verbatim>\<open>char.isdigit()\<close> is modelled on
  the ASCII digits.  Python also counts other Unicode digits, such as a
  superscript two; version strings with such characters are outside the model.
\<close>

definition isdigit :: "char \<Rightarrow> bool" where
  "isdigit c = (c \<in> set ''0123456789'')"

text \<open>\<^verbatim>\<open>re.split("-|_", s)\<close>: the pieces of \<open>s\<close> between the separators, empty pieces included.\<close>

fun re_split :: "string \<Rightarrow> string list" where
  "re_split [] = [[]]"
| "re_split (c # cs) =
     (if c = CHR ''-'' \<or> c = CHR ''_'' then [] # re_split cs
      else (case re_split cs of
              [] \<Rightarrow> [[c]]
            | t # ts \<Rightarrow> (c # t) # ts))"

text \<open>\<^verbatim>\<open>any(char.isdigit() for char in element)\<close>\<close>

definition any_digit :: "string \<Rightarrow> bool" where
  "any_digit element = list_ex isdigit element"

text \<open>
  The \<^verbatim>\<open>for element in parsed_service_ver\<close> loop of
  \<^verbatim>\<open>extracted_service_ver_in_nums\<close>.  The list iterator keeps an index and
  compares it with the current length at every step, while the body removes
  from the very list it iterates over; \<^verbatim>\<open>list.remove\<close> deletes the first
  element equal to its argument.  The element read at index \<open>i\<close> is a member
  of the list, so \<^verbatim>\<open>remove\<close> cannot raise here.
\<close>

function remove_loop :: "nat \<Rightarrow> string list \<Rightarrow> string list" where
  "remove_loop i parsed_service_ver =
     (if i < length parsed_service_ver then
        (let element = parsed_service_ver ! i in
         if \<not> any_digit element
         then remove_loop (Suc i) (remove1 element parsed_service_ver)
         else remove_loop (Suc i) parsed_service_ver)
      else parsed_service_ver)"
  by pat_completeness auto
termination
  by (relation "measure (\<lambda>(i, xs). length xs - i)") (auto simp: length_remove1)

declare remove_loop.simps [simp del]

definition extracted_service_ver_in_nums :: "string \<Rightarrow> string list" where
  "extracted_service_ver_in_nums service_version = remove_loop 0 (re_split service_version)"

section \<open>cve\_scrapper.py: the advisory table extractor\<close>

text \<open>
  The HTML parser (BeautifulSoup) and the byte decoder are libraries outside
  the repository.  The calls the source makes on them are the fields of a
  record; \<open>'n\<close> is the type of parsed elements.  A navigation call that finds
  nothing returns Python's \<^verbatim>\<open>None\<close>, here \<open>None\<close>.
  \<^item> \<open>decode\<close>: \<^verbatim>\<open>page_content.decode("UTF-8")\<close>, \<open>None\<close> when it raises;
  \<^item> \<open>find_all\<close>: \<^verbatim>\<open>BeautifulSoup(s, "html.parser").find_all("td", class_="cvesummarylong")\<close>,
    the summary cells in document order;
  \<^item> \<open>elem_text\<close>: \<^verbatim>\<open>element.text\<close>;
  \<^item> \<open>find_previous\<close>, \<open>find_parent\<close>: the calls of these names without arguments;
  \<^item> \<open>find_td\<close>, \<open>find_next_td\<close>, \<open>find_a\<close>: \<^verbatim>\<open>.find("td")\<close>,
    \<^verbatim>\<open>.find_next("td")\<close>, \<^verbatim>\<open>.find("a")\<close>;
  \<^item> \<open>get_href\<close>: the attribute read by \<^verbatim>\<open>tag['href']\<close>, \<open>None\<close> when the tag has no such attribute.
\<close>

record 'n soup_lib =
  decode :: "string \<Rightarrow> string option"
  find_all :: "string \<Rightarrow> 'n list"
  elem_text :: "'n \<Rightarrow> string"
  find_previous :: "'n \<Rightarrow> 'n option"
  find_parent :: "'n \<Rightarrow> 'n option"
  find_td :: "'n \<Rightarrow> 'n option"
  find_next_td :: "'n \<Rightarrow> 'n option"
  find_a :: "'n \<Rightarrow> 'n option"
  get_href :: "'n \<Rightarrow> string option"

text \<open>\<^verbatim>\<open>word in element.text\<close>: \<open>word\<close> occurs in the text as a contiguous piece.\<close>

fun str_in :: "string \<Rightarrow> string \<Rightarrow> bool" where
  "str_in word [] = (word = [])"
| "str_in word (c # cs) = (prefix word (c # cs) \<or> str_in word cs)"

text \<open>\<^verbatim>\<open>any(word in element.text for word in parsed_service_ver)\<close>\<close>

definition any_word_in :: "'n soup_lib \<Rightarrow> string list \<Rightarrow> 'n \<Rightarrow> bool" where
  "any_word_in lib parsed_service_ver element =
     list_ex (\<lambda>word. str_in word (elem_text lib element)) parsed_service_ver"

text \<open>
  The chain
  \<^verbatim>\<open>element.find_previous().find_previous().find_parent().find("td").find_next("td").find("a")\<close>.
  A method call on \<^verbatim>\<open>None\<close> raises AttributeError; the last call may itself
  return \<^verbatim>\<open>None\<close>.
\<close>

definition cve_a_tag :: "'n soup_lib \<Rightarrow> 'n \<Rightarrow> error + 'n option" where
  "cve_a_tag lib element =
     (case find_previous lib element of
        None \<Rightarrow> Inl AttributeError
      | Some p1 \<Rightarrow>
     (case find_previous lib p1 of
        None \<Rightarrow> Inl AttributeError
      | Some p2 \<Rightarrow>
     (case find_parent lib p2 of
        None \<Rightarrow> Inl AttributeError
      | Some row \<Rightarrow>
     (case find_td lib row of
        None \<Rightarrow> Inl AttributeError
      | Some td1 \<Rightarrow>
     (case find_next_td lib td1 of
        None \<Rightarrow> Inl AttributeError
      | Some td2 \<Rightarrow> Inr (find_a lib td2))))))"

text \<open>
  \<^verbatim>\<open>cve_a_tag['href']\<close>: subscripting \<^verbatim>\<open>None\<close> raises TypeError, a tag without
  the attribute raises KeyError.
\<close>

definition subscript_href :: "'n soup_lib \<Rightarrow> 'n option \<Rightarrow> error + string" where
  "subscript_href lib tag =
     (case tag of
        None \<Rightarrow> Inl TypeError
      | Some a \<Rightarrow> (case get_href lib a of None \<Rightarrow> Inl KeyError | Some h \<Rightarrow> Inr h))"

text \<open>The body of the \<^verbatim>\<open>if\<close> in the loop: the traversal, then the f-string that is returned.\<close>

definition cve_url_of :: "'n soup_lib \<Rightarrow> 'n \<Rightarrow> error + string" where
  "cve_url_of lib element =
     (case cve_a_tag lib element of
        Inl e \<Rightarrow> Inl e
      | Inr tag \<Rightarrow>
          (case subscript_href lib tag of
             Inl e \<Rightarrow> Inl e
           | Inr h \<Rightarrow> Inr (''https://www.cvedetails.com'' @ h)))"

text \<open>The \<^verbatim>\<open>for element in soup.find_all(...)\<close> loop, with its \<^verbatim>\<open>return\<close> inside and after the loop.\<close>

fun scrape_elements :: "'n soup_lib \<Rightarrow> string list \<Rightarrow> 'n list \<Rightarrow> error + string option" where
  "scrape_elements lib parsed_service_ver [] = Inr None"
| "scrape_elements lib parsed_service_ver (element # rest) =
     (if any_word_in lib parsed_service_ver element
      then (case cve_url_of lib element of Inl e \<Rightarrow> Inl e | Inr url \<Rightarrow> Inr (Some url))
      else scrape_elements lib parsed_service_ver rest)"

definition scrape_cve_table_page ::
  "'n soup_lib \<Rightarrow> string \<Rightarrow> string list \<Rightarrow> error + string option" where
  "scrape_cve_table_page lib page_content parsed_service_ver =
     (case decode lib page_content of
        None \<Rightarrow> Inl UnicodeDecodeError
      | Some html \<Rightarrow> scrape_elements lib parsed_service_ver (find_all lib html))"

section \<open>The network collaborators\<close>

text \<open>
  The site finder (\<^verbatim>\<open>GoogleSitesFinder\<close>) and the HTTP client are outside the
  sources.  Both act on the outside world, of an arbitrary type \<open>'w\<close> that is
  passed through every call, and both may raise.
  \<^item> \<open>search_for_pages net service_version domain\<close>:
    \<^verbatim>\<open>GoogleSitesFinder(service_version).search_for_pages(domain)\<close>;
  \<^item> \<open>http_get net url\<close>: the body read from \<^verbatim>\<open>session.get(url)\<close>.
\<close>

record 'w net =
  search_for_pages :: "string \<Rightarrow> string \<Rightarrow> 'w \<Rightarrow> error + string list \<times> 'w"
  http_get :: "string \<Rightarrow> 'w \<Rightarrow> error + string \<times> 'w"

definition get_page_content :: "'w net \<Rightarrow> string \<Rightarrow> 'w \<Rightarrow> error + string \<times> 'w" where
  "get_page_content net cve_table_url w = http_get net cve_table_url w"

text \<open>
  \<^verbatim>\<open>if suitable_cve := ...\<close> tests the truth value of the result: \<^verbatim>\<open>None\<close> and
  the empty string are false.
\<close>

definition find_suitable_cve ::
  "'n soup_lib \<Rightarrow> 'w net \<Rightarrow> string \<Rightarrow> string \<Rightarrow> 'w \<Rightarrow> error + string list option \<times> 'w" where
  "find_suitable_cve lib net cve_table_url service_version w =
     (let parsed_service_ver = extracted_service_ver_in_nums service_version in
      case get_page_content net cve_table_url w of
        Inl e \<Rightarrow> Inl e
      | Inr (page_content, w') \<Rightarrow>
          (case scrape_cve_table_page lib page_content parsed_service_ver of
             Inl e \<Rightarrow> Inl e
           | Inr None \<Rightarrow> Inr (None, w')
           | Inr (Some suitable_cve) \<Rightarrow>
               if suitable_cve \<noteq> [] then Inr (Some [suitable_cve], w') else Inr (None, w')))"

section \<open>executor.py\<close>

definition scrap_exploits :: "'w net \<Rightarrow> string \<Rightarrow> 'w \<Rightarrow> error + string list \<times> 'w" where
  "scrap_exploits net service_version w =
     search_for_pages net service_version ''https://www.exploit-db.com'' w"

text \<open>\<^verbatim>\<open>if not cve_table_url: return cve_table_url\<close> hands back the empty list it was given.\<close>

definition scrap_cve ::
  "'n soup_lib \<Rightarrow> 'w net \<Rightarrow> string \<Rightarrow> 'w \<Rightarrow> error + string list option \<times> 'w" where
  "scrap_cve lib net service_version w =
     (case search_for_pages net service_version ''https://www.cvedetails.com'' w of
        Inl e \<Rightarrow> Inl e
      | Inr (cve_table_url, w') \<Rightarrow>
          (case cve_table_url of
             [] \<Rightarrow> Inr (Some cve_table_url, w')
           | first_url # _ \<Rightarrow> find_suitable_cve lib net first_url service_version w'))"

text \<open>
  \<^verbatim>\<open>asyncio.gather(self.scrap_cve(), self.scrap_exploits())\<close> returns the two
  results in argument order.  The model runs the advisory branch first and the
  exploit branch second, which is one of the schedules of the two coroutines;
  an exception of either branch is the exception of the call.
\<close>

definition run_web_scrappers ::
  "'n soup_lib \<Rightarrow> 'w net \<Rightarrow> string \<Rightarrow> 'w \<Rightarrow> error + (string list option \<times> string list) \<times> 'w" where
  "run_web_scrappers lib net service_version w =
     (case scrap_cve lib net service_version w of
        Inl e \<Rightarrow> Inl e
      | Inr (cve_urls, w1) \<Rightarrow>
          (case scrap_exploits net service_version w1 of
             Inl e \<Rightarrow> Inl e
           | Inr (exploits_urls, w2) \<Rightarrow> Inr ((cve_urls, exploits_urls), w2)))"

section \<open>main\_executor.py\<close>

text \<open>
  The list under \<^verbatim>\<open>"ports_services"\<close> first holds the scanner's records and,
  after \<^verbatim>\<open>find_exploit\<close>, the \<^verbatim>\<open>Vulnerability\<close> named tuples.  Both kinds of
  element have the attributes \<open>port_number\<close>, \<open>service_name\<close> and
  \<open>service_version\<close>.
\<close>

datatype entry =
    ServiceRecord (port_number: int) (service_name: string) (service_version: string)
  | Vulnerability (port_number: int) (service_name: string) (service_version: string)
      (cve_link: string) (exploit_link: string)

text \<open>
  \<^verbatim>\<open>list.insert(i, x)\<close> for \<open>i \<ge> 0\<close> (an index past the end appends) and
  \<^verbatim>\<open>del list[i]\<close> for an index in range; \<^verbatim>\<open>find_exploit\<close> only deletes at an
  index below the length.
\<close>

definition list_insert :: "nat \<Rightarrow> 'a \<Rightarrow> 'a list \<Rightarrow> 'a list" where
  "list_insert i x xs = take i xs @ x # drop i xs"

definition list_del :: "nat \<Rightarrow> 'a list \<Rightarrow> 'a list" where
  "list_del i xs = take i xs @ drop (Suc i) xs"

text \<open>\<^verbatim>\<open>cve_urls[0] if cve_urls else "Unknown"\<close>: \<^verbatim>\<open>None\<close> and the empty list are false.\<close>

definition first_cve :: "string list option \<Rightarrow> string" where
  "first_cve cve_urls = (case cve_urls of Some (u # _) \<Rightarrow> u | _ \<Rightarrow> ''Unknown'')"

definition first_exploit :: "string list \<Rightarrow> string" where
  "first_exploit exploit_urls = (case exploit_urls of u # _ \<Rightarrow> u | [] \<Rightarrow> ''Unknown'')"

text \<open>\<^verbatim>\<open>if cve_urls: del cve_urls[0]\<close> and \<^verbatim>\<open>if exploit_urls: del exploit_urls[0]\<close>\<close>

definition del_first_cve :: "string list option \<Rightarrow> string list option" where
  "del_first_cve cve_urls = (case cve_urls of Some (_ # us) \<Rightarrow> Some us | _ \<Rightarrow> cve_urls)"

definition del_first_exploit :: "string list \<Rightarrow> string list" where
  "del_first_exploit exploit_urls = (case exploit_urls of _ # us \<Rightarrow> us | [] \<Rightarrow> [])"

text \<open>
  The \<^verbatim>\<open>for index_, collected_info in enumerate(...)\<close> loop.  The iterator reads
  the list, which the body changes, at the current index as long as the index
  is below the current length.  \<^verbatim>\<open>cve_urls\<close> and \<^verbatim>\<open>exploit_urls\<close> are
  assigned before the loop and inside the \<^verbatim>\<open>if\<close> only, so they keep their
  value from one round to the next.  \<open>run version\<close> is
  \<^verbatim>\<open>asyncio.run(FindExploit(service_version=version).run_web_scrappers())\<close>.
\<close>

function find_exploit_loop ::
  "(string \<Rightarrow> 'w \<Rightarrow> error + (string list option \<times> string list) \<times> 'w) \<Rightarrow>
     nat \<Rightarrow> string list option \<Rightarrow> string list \<Rightarrow> entry list \<Rightarrow> 'w \<Rightarrow> error + entry list \<times> 'w" where
  "find_exploit_loop run index cve_urls exploit_urls ports_services w =
     (if index < length ports_services then
        (let collected_info = ports_services ! index in
         case (if service_version collected_info \<noteq> ''Unknown''
               then run (service_version collected_info) w
               else Inr ((cve_urls, exploit_urls), w)) of
           Inl e \<Rightarrow> Inl e
         | Inr ((cve_urls', exploit_urls'), w') \<Rightarrow>
             find_exploit_loop run (Suc index)
               (del_first_cve cve_urls') (del_first_exploit exploit_urls')
               (list_del index
                  (list_insert (Suc index)
                     (Vulnerability (port_number collected_info) (service_name collected_info)
                        (service_version collected_info)
                        (first_cve cve_urls') (first_exploit exploit_urls'))
                     ports_services))
               w')
      else Inr (ports_services, w))"
  by pat_completeness auto
termination
  by (relation "measure (\<lambda>(run, index, cve_urls, exploit_urls, ports_services, w).
        length ports_services - index)")
    (auto simp: list_del_def list_insert_def)

declare find_exploit_loop.simps [simp del]

text \<open>
  \<^verbatim>\<open>find_exploit\<close> on the dictionary \<^verbatim>\<open>founded_vulnerabilities\<close>; a missing key
  raises KeyError.  The method returns nothing: its result is the dictionary
  with the list it has rewritten in place.
\<close>

definition find_exploit_with ::
  "(string \<Rightarrow> 'w \<Rightarrow> error + (string list option \<times> string list) \<times> 'w) \<Rightarrow>
     (string \<rightharpoonup> entry list) \<Rightarrow> 'w \<Rightarrow> error + (string \<rightharpoonup> entry list) \<times> 'w" where
  "find_exploit_with run founded_vulnerabilities w =
     (case founded_vulnerabilities ''ports_services'' of
        None \<Rightarrow> Inl KeyError
      | Some ports_services \<Rightarrow>
          (case find_exploit_loop run 0 (Some []) [] ports_services w of
             Inl e \<Rightarrow> Inl e
           | Inr (ports_services', w') \<Rightarrow>
               Inr (founded_vulnerabilities(''ports_services'' \<mapsto> ports_services'), w')))"

text \<open>
  \<^verbatim>\<open>FindExploit\<close> is the name under which the package \<^verbatim>\<open>scraper\<close> hands out
  the executor of \<^verbatim>\<open>executor.py\<close>.
\<close>

definition find_exploit ::
  "'n soup_lib \<Rightarrow> 'w net \<Rightarrow> (string \<rightharpoonup> entry list) \<Rightarrow> 'w \<Rightarrow> error + (string \<rightharpoonup> entry list) \<times> 'w" where
  "find_exploit lib net = find_exploit_with (run_web_scrappers lib net)"

section \<open>Test doubles\<close>

text \<open>
  A parser double over numbered elements, serving three pages.  The page
  \<open>''listing''\<close> has the summary cells 0 (\<open>''no match here''\<close>) and 10
  (\<open>''contains 7.2 version''\<close>); from cell 10 the traversal goes through the
  elements 11 to 15 to the anchor 16, whose href is \<open>''/cve/CVE-2016-0777/''\<close>;
  cell 0 has no element before it.  The page \<open>''redesigned''\<close> has the one
  summary cell 20 (\<open>''OpenSSH 7.2p1''\<close>); the traversal goes through 21 to 25,
  and the cell 25 it ends in holds no anchor.  The page \<open>''no href''\<close> has the
  one summary cell 30 (\<open>''OpenSSH 7.2p1''\<close>); the traversal goes through 31 to
  35 to the anchor 36, which has no href.  Every other text has no summary
  cell.  The single byte \<open>0xFF\<close> is not UTF-8.
\<close>

definition stub_lib :: "nat soup_lib" where
  "stub_lib =
     \<lparr> decode = (\<lambda>page_content. if page_content = [CHR 0xFF] then None else Some page_content),
       find_all = (\<lambda>html. if html = ''listing'' then [0, 10]
                            else if html = ''redesigned'' then [20]
                            else if html = ''no href'' then [30] else []),
       elem_text = (\<lambda>n. if n = 0 then ''no match here''
                          else if n = 10 then ''contains 7.2 version''
                          else if n = 20 \<or> n = 30 then ''OpenSSH 7.2p1'' else []),
       find_previous = (\<lambda>n. if n = 10 then Some 11 else if n = 11 then Some 12
                              else if n = 20 then Some 21 else if n = 21 then Some 22
                              else if n = 30 then Some 31 else if n = 31 then Some 32 else None),
       find_parent = (\<lambda>n. if n = 12 then Some 13 else if n = 22 then Some 23
                            else if n = 32 then Some 33 else None),
       find_td = (\<lambda>n. if n = 13 then Some 14 else if n = 23 then Some 24
                        else if n = 33 then Some 34 else None),
       find_next_td = (\<lambda>n. if n = 14 then Some 15 else if n = 24 then Some 25
                             else if n = 34 then Some 35 else None),
       find_a = (\<lambda>n. if n = 15 then Some 16 else if n = 35 then Some 36 else None),
       get_href = (\<lambda>n. if n = 16 then Some ''/cve/CVE-2016-0777/'' else None) \<rparr>"

text \<open>
  A network double whose world is the list of the requests issued so far.
  The site finder knows a listing page for \<open>''OpenSSH_7.2''\<close> and for
  \<open>''ProFTPD_1.3.5''\<close>, the redesigned page for \<open>''OpenSSH_7.2p1''\<close>, a page that
  cannot be fetched for \<open>''vsftpd_2.3.4''\<close>, and two exploit pages for
  \<open>''Apache_2.4.49''\<close>; every other search is empty.
\<close>

definition stub_search :: "string \<Rightarrow> string \<Rightarrow> string list" where
  "stub_search version domain =
     (if domain = ''https://www.cvedetails.com'' \<and>
         (version = ''OpenSSH_7.2'' \<or> version = ''ProFTPD_1.3.5'')
      then [''https://www.cvedetails.com/listing'']
      else if domain = ''https://www.cvedetails.com'' \<and> version = ''OpenSSH_7.2p1''
      then [''https://www.cvedetails.com/redesigned'']
      else if domain = ''https://www.cvedetails.com'' \<and> version = ''vsftpd_2.3.4''
      then [''https://www.cvedetails.com/down'']
      else if domain = ''https://www.exploit-db.com'' \<and> version = ''Apache_2.4.49''
      then [''https://www.exploit-db.com/exploits/50383'',
            ''https://www.exploit-db.com/exploits/50406'']
      else [])"

definition stub_net :: "string list net" where
  "stub_net =
     \<lparr> search_for_pages = (\<lambda>version domain w.
         Inr (stub_search version domain, w @ [domain])),
       http_get = (\<lambda>url w.
         if url = ''https://www.cvedetails.com/listing'' then Inr (''listing'', w @ [url])
         else if url = ''https://www.cvedetails.com/redesigned''
         then Inr (''redesigned'', w @ [url])
         else Inl (NetworkFailure ''ClientConnectorError'')) \<rparr>"

section \<open>The version tokenizer\<close>

text \<open>
  \<open>re_split\<close> always returns at least one piece, as \<^verbatim>\<open>re.split\<close> does; the
  case of an empty list in its definition is never taken.
\<close>

lemma re_split_not_Nil: "re_split s \<noteq> []"
  by (induction s) (auto split: list.splits)

lemma filter_remove1_dropped: "\<not> P x \<Longrightarrow> filter P (remove1 x xs) = filter P xs"
  by (induction xs) auto

text \<open>Whatever the loop removes, it never removes a token that holds a digit.\<close>

lemma remove_loop_keeps_digit_tokens:
  "filter any_digit (remove_loop i xs) = filter any_digit xs"
proof (induction i xs rule: remove_loop.induct)
  case (1 i xs)
  show ?case
  proof (cases "i < length xs")
    case False
    then show ?thesis by (simp add: remove_loop.simps [of i xs])
  next
    case True
    show ?thesis
    proof (cases "any_digit (xs ! i)")
      case True
      with \<open>i < length xs\<close> 1 show ?thesis
        by (simp add: remove_loop.simps [of i xs])
    next
      case False
      with \<open>i < length xs\<close> 1 show ?thesis
        by (simp add: remove_loop.simps [of i xs] filter_remove1_dropped)
    qed
  qed
qed

text \<open>
  Claim C3 says that every token returned by \<open>extracted_service_ver_in_nums\<close>
  contains a digit.  The loop removes from the list it iterates over, so the
  token that follows a removed one is never looked at: on
  \<open>''Microsoft-IIS-7.5''\<close> the token \<open>''IIS''\<close>, which holds no digit, is
  returned.
\<close>

theorem tokenizer_returns_token_without_digit:
  "extracted_service_ver_in_nums ''Microsoft-IIS-7.5'' = [''IIS'', ''7.5'']
   \<and> \<not> any_digit ''IIS''"
  by code_simp

text \<open>
  Claim C8 says that the tokenizer maps \<open>''7.2p1''\<close> to the three tokens
  \<open>''7''\<close>, \<open>''2''\<close>, \<open>''1''\<close>.  It does not.
\<close>

theorem tokenizer_7_2p1_not_three_tokens:
  "extracted_service_ver_in_nums ''7.2p1'' \<noteq> [''7'', ''2'', ''1'']"
  by code_simp

text \<open>
  Claim C8, amended: the tokenizer maps \<open>''7.2p1''\<close> to the single token
  \<open>''7.2p1''\<close>.  The string is cut at \<open>-\<close> and \<open>_\<close> only, and every piece
  that holds a digit is returned whole, letters and dots included, in the
  order of the pieces.
\<close>

theorem tokenizer_7_2p1_one_token:
  "extracted_service_ver_in_nums ''7.2p1'' = [''7.2p1'']
   \<and> (\<forall>v. filter any_digit (extracted_service_ver_in_nums v) = filter any_digit (re_split v))"
proof
  show "extracted_service_ver_in_nums ''7.2p1'' = [''7.2p1'']" by code_simp
  show "\<forall>v. filter any_digit (extracted_service_ver_in_nums v) = filter any_digit (re_split v)"
    by (simp add: extracted_service_ver_in_nums_def remove_loop_keeps_digit_tokens)
qed

section \<open>The advisory table extractor\<close>

text \<open>\<open>str_in\<close> is containment as a contiguous piece.\<close>

lemma str_in_sublist: "str_in word t = sublist word t"
  by (induction t) (auto simp: sublist_Cons_right)

lemma any_word_in_Nil: "\<not> any_word_in lib [] element"
  by (simp add: any_word_in_def)

lemma scrape_elements_no_match:
  "\<not> list_ex (any_word_in lib tokens) cells \<Longrightarrow> scrape_elements lib tokens cells = Inr None"
  by (induction cells) auto

lemma scrape_elements_first_match:
  "\<not> list_ex (any_word_in lib tokens) before \<Longrightarrow> any_word_in lib tokens element \<Longrightarrow>
   scrape_elements lib tokens (before @ element # after) =
     (case cve_url_of lib element of Inl e \<Rightarrow> Inl e | Inr url \<Rightarrow> Inr (Some url))"
  by (induction before) auto

lemma scrape_elements_None_iff:
  "scrape_elements lib tokens cells = Inr None \<longleftrightarrow> \<not> list_ex (any_word_in lib tokens) cells"
  by (induction cells) (auto split: sum.splits)

text \<open>
  Claim C5: with \<open>cells\<close> the summary cells of the decoded page in document
  order, \<open>scrape_cve_table_page\<close> returns none when no cell contains a token,
  hence when there is no cell or no token; and when \<open>element\<close> is the first
  cell whose text contains a token and the traversal from it reaches an anchor
  \<open>a\<close> with href \<open>h\<close>, it returns the domain followed by \<open>h\<close>.
\<close>

theorem scrape_cve_table_page_first_match:
  assumes "decode lib page_content = Some html"
  shows "(\<not> list_ex (any_word_in lib tokens) (find_all lib html) \<longrightarrow>
            scrape_cve_table_page lib page_content tokens = Inr None)
       \<and> (find_all lib html = [] \<longrightarrow> scrape_cve_table_page lib page_content tokens = Inr None)
       \<and> (tokens = [] \<longrightarrow> scrape_cve_table_page lib page_content tokens = Inr None)
       \<and> (find_all lib html = before @ element # after
            \<and> \<not> list_ex (any_word_in lib tokens) before
            \<and> any_word_in lib tokens element
            \<and> cve_a_tag lib element = Inr (Some a) \<and> get_href lib a = Some h \<longrightarrow>
            scrape_cve_table_page lib page_content tokens =
              Inr (Some (''https://www.cvedetails.com'' @ h)))"
proof (intro conjI impI)
  assume "\<not> list_ex (any_word_in lib tokens) (find_all lib html)"
  then show "scrape_cve_table_page lib page_content tokens = Inr None"
    using assms by (simp add: scrape_cve_table_page_def scrape_elements_no_match)
next
  assume "find_all lib html = []"
  then show "scrape_cve_table_page lib page_content tokens = Inr None"
    using assms by (simp add: scrape_cve_table_page_def)
next
  assume "tokens = []"
  then have "\<not> list_ex (any_word_in lib tokens) (find_all lib html)"
    by (simp add: list_ex_iff any_word_in_Nil)
  then show "scrape_cve_table_page lib page_content tokens = Inr None"
    using assms by (simp add: scrape_cve_table_page_def scrape_elements_no_match)
next
  assume h: "find_all lib html = before @ element # after
            \<and> \<not> list_ex (any_word_in lib tokens) before
            \<and> any_word_in lib tokens element
            \<and> cve_a_tag lib element = Inr (Some a) \<and> get_href lib a = Some h"
  then have "cve_url_of lib element = Inr (''https://www.cvedetails.com'' @ h)"
    by (simp add: cve_url_of_def subscript_href_def)
  with h show "scrape_cve_table_page lib page_content tokens =
              Inr (Some (''https://www.cvedetails.com'' @ h))"
    using assms by (simp add: scrape_cve_table_page_def scrape_elements_first_match)
qed

theorem scrape_cve_table_page_first_match_witness:
  "scrape_cve_table_page stub_lib ''listing'' [''7'', ''2''] =
     Inr (Some ''https://www.cvedetails.com/cve/CVE-2016-0777/'')
   \<and> scrape_cve_table_page stub_lib ''listing'' [''5.9''] = Inr None
   \<and> scrape_cve_table_page stub_lib ''no table'' [''7'', ''2''] = Inr None
   \<and> scrape_cve_table_page stub_lib ''listing'' [] = Inr None"
proof -
  have d: "decode stub_lib ''listing'' = Some ''listing''"
    and d': "decode stub_lib ''no table'' = Some ''no table''"
    by (simp_all add: stub_lib_def)
  have cells: "find_all stub_lib ''listing'' = [0] @ 10 # []"
    and none: "find_all stub_lib ''no table'' = []"
    by (simp_all add: stub_lib_def)
  have nomatch: "\<not> list_ex (any_word_in stub_lib [''7'', ''2'']) [0]"
    and match: "any_word_in stub_lib [''7'', ''2''] 10"
    and nomatch2: "\<not> list_ex (any_word_in stub_lib [''5.9'']) (find_all stub_lib ''listing'')"
    by (simp_all add: stub_lib_def any_word_in_def)
  have tag: "cve_a_tag stub_lib 10 = Inr (Some 16)"
    and href: "get_href stub_lib 16 = Some ''/cve/CVE-2016-0777/''"
    by (simp_all add: stub_lib_def cve_a_tag_def)
  show ?thesis
    using scrape_cve_table_page_first_match
        [OF d, of "[''7'', ''2'']" "[0]" 10 "[]" 16 "''/cve/CVE-2016-0777/''"]
      scrape_cve_table_page_first_match [OF d, of "[''5.9'']"]
      scrape_cve_table_page_first_match [OF d', of "[''7'', ''2'']"]
      scrape_cve_table_page_first_match [OF d, of "[]"]
      cells none nomatch match nomatch2 tag href
    by simp
qed

text \<open>
  Claim C4 says that \<open>scrape_cve_table_page\<close> returns none whenever the
  traversal from a matching summary cell cannot locate the link element.  On
  the page \<open>''redesigned''\<close> the cell matches and the traversal ends in a cell
  without an anchor: the subscript on \<^verbatim>\<open>None\<close> raises TypeError.
\<close>

theorem malformed_page_raises_example:
  "cve_a_tag stub_lib 20 = Inr None
   \<and> scrape_cve_table_page stub_lib ''redesigned'' [''7.2p1''] = Inl TypeError
   \<and> scrape_cve_table_page stub_lib ''redesigned'' [''7.2p1''] \<noteq> Inr None"
  by (simp add: scrape_cve_table_page_def cve_url_of_def cve_a_tag_def subscript_href_def
      any_word_in_def stub_lib_def)

text \<open>
  The traversal read as five navigation steps in a row: it raises
  AttributeError exactly when one of them finds nothing, and otherwise hands on
  what \<^verbatim>\<open>.find("a")\<close> finds in the cell the steps end in.
\<close>

lemma cve_a_tag_steps:
  "cve_a_tag lib element =
     (case Option.bind (Option.bind (Option.bind (Option.bind
              (find_previous lib element) (find_previous lib)) (find_parent lib))
              (find_td lib)) (find_next_td lib) of
        None \<Rightarrow> Inl AttributeError
      | Some td2 \<Rightarrow> Inr (find_a lib td2))"
  by (simp add: cve_a_tag_def split: option.splits)

text \<open>An exception of the extractor is the exception of its callers.\<close>

lemma find_suitable_cve_hands_on:
  assumes "http_get net url w = Inr (page_content, w1)"
      and "scrape_cve_table_page lib page_content (extracted_service_ver_in_nums ver) = Inl e"
  shows "find_suitable_cve lib net url ver w = Inl e"
  using assms by (simp add: find_suitable_cve_def get_page_content_def)

lemma scrap_cve_hands_on:
  assumes "search_for_pages net ver ''https://www.cvedetails.com'' w0 = Inr (url # urls, w)"
      and "find_suitable_cve lib net url ver w = Inl e"
  shows "scrap_cve lib net ver w0 = Inl e"
  using assms by (simp add: scrap_cve_def)

text \<open>
  Claim C4, amended: on a page that decodes, \<open>scrape_cve_table_page\<close> returns
  none exactly when no summary cell contains a token.  When \<open>element\<close> is the
  first cell that contains a token, the call raises AttributeError if one of
  the five navigation steps from it finds nothing, TypeError if the steps end
  in a cell that holds no anchor, and KeyError if the anchor has no href.
  Nothing catches the exception: whatever \<open>scrape_cve_table_page\<close> raises on
  the fetched page, \<open>find_suitable_cve\<close> and \<open>scrap_cve\<close> raise too.
\<close>

theorem scrape_cve_table_page_malformed_page:
  fixes lib :: "'n soup_lib" and net :: "'w net"
  defines "steps \<equiv> \<lambda>lib element.
     Option.bind (Option.bind (Option.bind (Option.bind
       (find_previous lib element) (find_previous lib)) (find_parent lib))
       (find_td lib)) (find_next_td lib)"
  shows "(decode lib page_content = Some html \<longrightarrow>
            (scrape_cve_table_page lib page_content tokens = Inr None) =
              (\<not> list_ex (any_word_in lib tokens) (find_all lib html)))
       \<and> (decode lib page_content = Some html
            \<and> find_all lib html = before @ element # after
            \<and> \<not> list_ex (any_word_in lib tokens) before
            \<and> any_word_in lib tokens element \<longrightarrow>
            (steps lib element = None \<longrightarrow>
               scrape_cve_table_page lib page_content tokens = Inl AttributeError)
          \<and> (steps lib element = Some td2 \<and> find_a lib td2 = None \<longrightarrow>
               scrape_cve_table_page lib page_content tokens = Inl TypeError)
          \<and> (steps lib element = Some td2 \<and> find_a lib td2 = Some a \<and> get_href lib a = None \<longrightarrow>
               scrape_cve_table_page lib page_content tokens = Inl KeyError))
       \<and> (http_get net url w = Inr (page_content, w1)
            \<and> scrape_cve_table_page lib page_content (extracted_service_ver_in_nums ver) = Inl e \<longrightarrow>
            find_suitable_cve lib net url ver w = Inl e
          \<and> (search_for_pages net ver ''https://www.cvedetails.com'' w0 = Inr (url # urls, w) \<longrightarrow>
               scrap_cve lib net ver w0 = Inl e))"
proof (intro conjI impI)
  assume "decode lib page_content = Some html"
  then show "(scrape_cve_table_page lib page_content tokens = Inr None) =
           (\<not> list_ex (any_word_in lib tokens) (find_all lib html))"
    by (simp add: scrape_cve_table_page_def scrape_elements_None_iff)
next
  assume h: "decode lib page_content = Some html
            \<and> find_all lib html = before @ element # after
            \<and> \<not> list_ex (any_word_in lib tokens) before
            \<and> any_word_in lib tokens element"
  then have first: "scrape_cve_table_page lib page_content tokens =
      (case cve_url_of lib element of Inl e \<Rightarrow> Inl e | Inr url \<Rightarrow> Inr (Some url))"
    by (simp add: scrape_cve_table_page_def scrape_elements_first_match)
  {
    assume "steps lib element = None"
    then have "cve_a_tag lib element = Inl AttributeError"
      by (simp add: cve_a_tag_steps steps_def)
    then show "scrape_cve_table_page lib page_content tokens = Inl AttributeError"
      by (simp add: first cve_url_of_def)
  next
    assume "steps lib element = Some td2 \<and> find_a lib td2 = None"
    then have "cve_a_tag lib element = Inr None"
      by (simp add: cve_a_tag_steps steps_def)
    then show "scrape_cve_table_page lib page_content tokens = Inl TypeError"
      by (simp add: first cve_url_of_def subscript_href_def)
  next
    assume "steps lib element = Some td2 \<and> find_a lib td2 = Some a \<and> get_href lib a = None"
    then have "cve_a_tag lib element = Inr (Some a)" and "get_href lib a = None"
      by (simp_all add: cve_a_tag_steps steps_def)
    then show "scrape_cve_table_page lib page_content tokens = Inl KeyError"
      by (simp add: first cve_url_of_def subscript_href_def)
  }
next
  assume h: "http_get net url w = Inr (page_content, w1)
            \<and> scrape_cve_table_page lib page_content (extracted_service_ver_in_nums ver) = Inl e"
  then show fs: "find_suitable_cve lib net url ver w = Inl e"
    by (simp add: find_suitable_cve_hands_on)
  assume "search_for_pages net ver ''https://www.cvedetails.com'' w0 = Inr (url # urls, w)"
  then show "scrap_cve lib net ver w0 = Inl e"
    using fs by (rule scrap_cve_hands_on)
qed

theorem scrape_cve_table_page_malformed_page_witness:
  "scrape_cve_table_page stub_lib ''listing'' [''no''] = Inl AttributeError
   \<and> scrape_cve_table_page stub_lib ''redesigned'' [''7.2p1''] = Inl TypeError
   \<and> scrape_cve_table_page stub_lib ''no href'' [''7.2p1''] = Inl KeyError
   \<and> scrape_cve_table_page stub_lib ''listing'' [''5.9''] = Inr None
   \<and> find_suitable_cve stub_lib stub_net ''https://www.cvedetails.com/redesigned''
        ''OpenSSH_7.2p1'' [''https://www.cvedetails.com''] = Inl TypeError
   \<and> scrap_cve stub_lib stub_net ''OpenSSH_7.2p1'' [] = Inl TypeError"
proof -
  let ?steps = "\<lambda>element. Option.bind (Option.bind (Option.bind (Option.bind
       (find_previous stub_lib element) (find_previous stub_lib)) (find_parent stub_lib))
       (find_td stub_lib)) (find_next_td stub_lib)"
  let ?w = "[''https://www.cvedetails.com'']"
  let ?url = "''https://www.cvedetails.com/redesigned''"
  note T = scrape_cve_table_page_malformed_page [where lib = stub_lib and net = stub_net]
  have d: "decode stub_lib ''listing'' = Some ''listing''"
    "decode stub_lib ''redesigned'' = Some ''redesigned''"
    "decode stub_lib ''no href'' = Some ''no href''"
    by (simp_all add: stub_lib_def)
  have cells: "find_all stub_lib ''listing'' = [] @ 0 # [10]"
    "find_all stub_lib ''redesigned'' = [] @ 20 # []"
    "find_all stub_lib ''no href'' = [] @ 30 # []"
    by (simp_all add: stub_lib_def)
  have match: "any_word_in stub_lib [''no''] 0" "any_word_in stub_lib [''7.2p1''] 20"
    "any_word_in stub_lib [''7.2p1''] 30"
    and nomatch: "\<not> list_ex (any_word_in stub_lib [''5.9'']) (find_all stub_lib ''listing'')"
    and before: "\<not> list_ex (any_word_in stub_lib ts) []" for ts
    by (simp_all add: stub_lib_def any_word_in_def)
  have steps: "?steps 0 = None" "?steps 20 = Some 25" "?steps 30 = Some 35"
    by (simp_all add: stub_lib_def)
  have links: "find_a stub_lib 25 = None" "find_a stub_lib 35 = Some 36"
    "get_href stub_lib 36 = None"
    by (simp_all add: stub_lib_def)
  have a: "scrape_cve_table_page stub_lib ''listing'' [''no''] = Inl AttributeError"
    using T [where page_content = "''listing''" and html = "''listing''" and tokens = "[''no'']"
        and before = "[]" and element = 0 and after = "[10]"]
      d cells match before steps
    by blast
  have t: "scrape_cve_table_page stub_lib ''redesigned'' [''7.2p1''] = Inl TypeError"
    using T [where page_content = "''redesigned''" and html = "''redesigned''"
        and tokens = "[''7.2p1'']" and before = "[]" and element = 20 and after = "[]"
        and ?td2.0 = 25]
      d cells match before steps links
    by blast
  have k: "scrape_cve_table_page stub_lib ''no href'' [''7.2p1''] = Inl KeyError"
    using T [where page_content = "''no href''" and html = "''no href''"
        and tokens = "[''7.2p1'']" and before = "[]" and element = 30 and after = "[]"
        and ?td2.0 = 35 and a = 36]
      d cells match before steps links
    by blast
  have n: "scrape_cve_table_page stub_lib ''listing'' [''5.9''] = Inr None"
    using T [where page_content = "''listing''" and html = "''listing''" and tokens = "[''5.9'']"]
      d nomatch
    by blast
  have tok: "extracted_service_ver_in_nums ''OpenSSH_7.2p1'' = [''7.2p1'']"
    by code_simp
  have s: "search_for_pages stub_net ''OpenSSH_7.2p1'' ''https://www.cvedetails.com'' [] =
      Inr (?url # [], ?w)"
    and g: "http_get stub_net ?url ?w = Inr (''redesigned'', ?w @ [?url])"
    by (simp_all add: stub_net_def stub_search_def)
  have p: "find_suitable_cve stub_lib stub_net ?url ''OpenSSH_7.2p1'' ?w = Inl TypeError
     \<and> scrap_cve stub_lib stub_net ''OpenSSH_7.2p1'' [] = Inl TypeError"
    using T [where page_content = "''redesigned''" and url = ?url and w = ?w
        and ?w1.0 = "?w @ [?url]" and ver = "''OpenSSH_7.2p1''" and e = TypeError
        and ?w0.0 = "[]" and urls = "[]"]
      s g t tok
    by simp
  show ?thesis using a t k n p by simp
qed

section \<open>The advisory search\<close>

text \<open>
  Claim C6 says that \<open>scrap_cve\<close> returns none when the site finder yields no
  candidate page.  It returns the empty list the site finder gave it.
\<close>

theorem scrap_cve_empty_search_example:
  "search_for_pages stub_net ''nginx_1.18'' ''https://www.cvedetails.com'' [] =
     Inr ([], [''https://www.cvedetails.com''])
   \<and> scrap_cve stub_lib stub_net ''nginx_1.18'' [] = Inr (Some [], [''https://www.cvedetails.com''])
   \<and> scrap_cve stub_lib stub_net ''nginx_1.18'' [] \<noteq> Inr (None, [''https://www.cvedetails.com''])"
  by (simp add: scrap_cve_def stub_net_def stub_search_def)

text \<open>
  Claim C6, amended: when the site finder yields no candidate page,
  \<open>scrap_cve\<close> returns that empty sequence, not none; when the page of the
  first candidate is fetched and the extraction finds no matching row, it
  returns none; and a sequence it returns has at most one element.
\<close>

theorem scrap_cve_results:
  "(search_for_pages net ver ''https://www.cvedetails.com'' w = Inr ([], w1) \<longrightarrow>
      scrap_cve lib net ver w = Inr (Some [], w1))
   \<and> (search_for_pages net ver ''https://www.cvedetails.com'' w = Inr (u # us, w1)
        \<and> http_get net u w1 = Inr (page_content, w2)
        \<and> scrape_cve_table_page lib page_content (extracted_service_ver_in_nums ver) = Inr None \<longrightarrow>
      scrap_cve lib net ver w = Inr (None, w2))
   \<and> (scrap_cve lib net ver w = Inr (Some urls, w') \<longrightarrow> length urls \<le> 1)"
  by (auto simp: scrap_cve_def find_suitable_cve_def get_page_content_def
      split: sum.splits list.splits option.splits if_splits prod.splits)

theorem scrap_cve_results_witness:
  "scrap_cve stub_lib stub_net ''nginx_1.18'' [] = Inr (Some [], [''https://www.cvedetails.com''])
   \<and> scrap_cve stub_lib stub_net ''ProFTPD_1.3.5'' [] =
       Inr (None, [''https://www.cvedetails.com'', ''https://www.cvedetails.com/listing''])
   \<and> scrap_cve stub_lib stub_net ''OpenSSH_7.2'' [] =
       Inr (Some [''https://www.cvedetails.com/cve/CVE-2016-0777/''],
            [''https://www.cvedetails.com'', ''https://www.cvedetails.com/listing''])
   \<and> length [''https://www.cvedetails.com/cve/CVE-2016-0777/''] \<le> 1"
proof -
  have s1: "search_for_pages stub_net ''nginx_1.18'' ''https://www.cvedetails.com'' [] =
      Inr ([], [''https://www.cvedetails.com''])"
    and s2: "search_for_pages stub_net ''ProFTPD_1.3.5'' ''https://www.cvedetails.com'' [] =
      Inr (''https://www.cvedetails.com/listing'' # [], [''https://www.cvedetails.com''])"
    and g2: "http_get stub_net ''https://www.cvedetails.com/listing'' [''https://www.cvedetails.com''] =
      Inr (''listing'', [''https://www.cvedetails.com'', ''https://www.cvedetails.com/listing''])"
    by (simp_all add: stub_net_def stub_search_def)
  have t2: "extracted_service_ver_in_nums ''ProFTPD_1.3.5'' = [''1.3.5'']"
    by code_simp
  have x2: "scrape_cve_table_page stub_lib ''listing'' (extracted_service_ver_in_nums ''ProFTPD_1.3.5'') = Inr None"
    unfolding t2 by (simp add: scrape_cve_table_page_def any_word_in_def stub_lib_def)
  have t3: "extracted_service_ver_in_nums ''OpenSSH_7.2'' = [''7.2'']"
    by code_simp
  have r3: "scrap_cve stub_lib stub_net ''OpenSSH_7.2'' [] =
       Inr (Some [''https://www.cvedetails.com/cve/CVE-2016-0777/''],
            [''https://www.cvedetails.com'', ''https://www.cvedetails.com/listing''])"
    by (simp add: scrap_cve_def find_suitable_cve_def get_page_content_def t3
        scrape_cve_table_page_def cve_url_of_def cve_a_tag_def subscript_href_def
        any_word_in_def stub_lib_def stub_net_def stub_search_def)
  show ?thesis
    using scrap_cve_results [where net = stub_net and ver = "''nginx_1.18''" and w = "[]"
          and ?w1.0 = "[''https://www.cvedetails.com'']" and lib = stub_lib]
      scrap_cve_results [where net = stub_net and ver = "''ProFTPD_1.3.5''" and w = "[]"
          and lib = stub_lib and u = "''https://www.cvedetails.com/listing''" and us = "[]"
          and ?w1.0 = "[''https://www.cvedetails.com'']" and page_content = "''listing''"
          and ?w2.0 = "[''https://www.cvedetails.com'', ''https://www.cvedetails.com/listing'']"]
      scrap_cve_results [where net = stub_net and ver = "''OpenSSH_7.2''" and w = "[]"
          and lib = stub_lib and urls = "[''https://www.cvedetails.com/cve/CVE-2016-0777/'']"
          and w' = "[''https://www.cvedetails.com'', ''https://www.cvedetails.com/listing'']"]
      s1 s2 g2 x2 r3
    by simp
qed

text \<open>
  Claim C7: when the site finder yields a candidate page and the fetch of the
  first candidate raises \<open>e\<close>, then \<open>get_page_content\<close>, \<open>find_suitable_cve\<close>
  and \<open>scrap_cve\<close> all raise the same \<open>e\<close>.
\<close>

theorem advisory_fetch_failure_propagates:
  assumes "search_for_pages net ver ''https://www.cvedetails.com'' w = Inr (u # us, w1)"
      and "http_get net u w1 = Inl e"
  shows "get_page_content net u w1 = Inl e
       \<and> find_suitable_cve lib net u ver w1 = Inl e
       \<and> scrap_cve lib net ver w = Inl e"
  using assms by (simp add: scrap_cve_def find_suitable_cve_def get_page_content_def)

theorem advisory_fetch_failure_propagates_witness:
  "scrap_cve stub_lib stub_net ''vsftpd_2.3.4'' [] = Inl (NetworkFailure ''ClientConnectorError'')"
proof -
  have s: "search_for_pages stub_net ''vsftpd_2.3.4'' ''https://www.cvedetails.com'' [] =
      Inr (''https://www.cvedetails.com/down'' # [], [''https://www.cvedetails.com''])"
    and g: "http_get stub_net ''https://www.cvedetails.com/down'' [''https://www.cvedetails.com''] =
      Inl (NetworkFailure ''ClientConnectorError'')"
    by (simp_all add: stub_net_def stub_search_def)
  show ?thesis
    using advisory_fetch_failure_propagates [OF s g, of stub_lib] by simp
qed

section \<open>The report merger\<close>

text \<open>Inserting behind the index and deleting at the index replaces the element at the index.\<close>

lemma list_del_insert:
  "index < length xs \<Longrightarrow> list_del index (list_insert (Suc index) v xs) = xs[index := v]"
  by (simp add: list_del_def list_insert_def upd_conv_take_nth_drop take_Suc_conv_app_nth)

text \<open>One round of the loop, with the list operations read as an update at the index.\<close>

lemma find_exploit_loop_step:
  assumes "index < length ps"
  shows "find_exploit_loop run index cve ex ps w =
     (case (if service_version (ps ! index) \<noteq> ''Unknown''
            then run (service_version (ps ! index)) w
            else Inr ((cve, ex), w)) of
        Inl e \<Rightarrow> Inl e
      | Inr ((cve', ex'), w') \<Rightarrow>
          find_exploit_loop run (Suc index) (del_first_cve cve') (del_first_exploit ex')
            (ps[index := Vulnerability (port_number (ps ! index)) (service_name (ps ! index))
                  (service_version (ps ! index)) (first_cve cve') (first_exploit ex')])
            w')"
  using assms
  by (subst find_exploit_loop.simps) (simp add: list_del_insert Let_def split: sum.splits prod.splits)

lemma find_exploit_loop_done:
  "\<not> index < length ps \<Longrightarrow> find_exploit_loop run index cve ex ps w = Inr (ps, w)"
  by (subst find_exploit_loop.simps) simp

text \<open>
  The loop invariant: the list keeps its length, the part before the index is
  what earlier rounds left there, and every later position ends as a
  \<open>Vulnerability\<close> with the three fields of the element it replaces.  \<open>Q\<close> is
  any property of the advisory result that the collaborator establishes and the
  deletion of the first URL keeps.
\<close>

lemma find_exploit_loop_inv:
  assumes "find_exploit_loop run index cve ex ps w = Inr (out, w')"
      and "\<And>v w0 cve' ex' w1. run v w0 = Inr ((cve', ex'), w1) \<Longrightarrow> Q cve'"
      and "Q cve"
      and "\<And>c. Q c \<Longrightarrow> Q (del_first_cve c)"
  shows "length out = length ps \<and>
         (\<forall>j<length ps.
            if j < index then out ! j = ps ! j
            else \<exists>c e. Q c \<and> out ! j =
              Vulnerability (port_number (ps ! j)) (service_name (ps ! j))
                (service_version (ps ! j)) (first_cve c) e)"
  using assms(1,3)
proof (induction "length ps - index" arbitrary: index cve ex ps w)
  case 0
  then have "out = ps" by (simp add: find_exploit_loop_done)
  with 0 show ?case by simp
next
  case (Suc n)
  then have lt: "index < length ps" by simp
  let ?info = "ps ! index"
  obtain cve' ex' w1 where
    step: "(if service_version ?info \<noteq> ''Unknown'' then run (service_version ?info) w
            else Inr ((cve, ex), w)) = Inr ((cve', ex'), w1)"
    using Suc.prems(1) lt
    by (auto simp: find_exploit_loop_step split: sum.splits prod.splits)
  let ?v = "Vulnerability (port_number ?info) (service_name ?info) (service_version ?info)
              (first_cve cve') (first_exploit ex')"
  have rec: "find_exploit_loop run (Suc index) (del_first_cve cve') (del_first_exploit ex')
               (ps[index := ?v]) w1 = Inr (out, w')"
    using Suc.prems(1) lt step by (simp add: find_exploit_loop_step)
  have Q': "Q cve'"
    using step Suc.prems(2) assms(2) by (auto split: if_splits)
  have n: "n = length (ps[index := ?v]) - Suc index"
    using Suc.hyps(2) by simp
  have IH: "length out = length (ps[index := ?v]) \<and>
         (\<forall>j<length (ps[index := ?v]).
            if j < Suc index then out ! j = ps[index := ?v] ! j
            else \<exists>c e. Q c \<and> out ! j =
              Vulnerability (port_number (ps[index := ?v] ! j)) (service_name (ps[index := ?v] ! j))
                (service_version (ps[index := ?v] ! j)) (first_cve c) e)"
    by (rule Suc.hyps(1) [OF n rec assms(4) [OF Q']])
  show ?case
  proof (intro conjI allI impI)
    show "length out = length ps" using IH by simp
  next
    fix j assume j: "j < length ps"
    let ?ps' = "ps[index := ?v]"
    have at_j: "if j < Suc index then out ! j = ?ps' ! j
            else \<exists>c e. Q c \<and> out ! j =
              Vulnerability (port_number (?ps' ! j)) (service_name (?ps' ! j))
                (service_version (?ps' ! j)) (first_cve c) e"
      by (rule IH [THEN conjunct2, rule_format]) (use j in simp)
    consider "j < index" | "j = index" | "index < j" by linarith
    then show "if j < index then out ! j = ps ! j
            else \<exists>c e. Q c \<and> out ! j =
              Vulnerability (port_number (ps ! j)) (service_name (ps ! j))
                (service_version (ps ! j)) (first_cve c) e"
    proof cases
      case 1
      then show ?thesis using at_j by simp
    next
      case 2
      then have "out ! j = ?v" using at_j j by simp
      with 2 Q' show ?thesis by auto
    next
      case 3
      then show ?thesis using at_j by simp
    qed
  qed
qed

text \<open>The loop returns when the collaborator does not raise on the versions still to come.\<close>

lemma find_exploit_loop_returns:
  assumes "\<forall>j. index \<le> j \<and> j < length ps \<longrightarrow> service_version (ps ! j) \<noteq> ''Unknown'' \<longrightarrow>
             (\<forall>w0. \<exists>res. run (service_version (ps ! j)) w0 = Inr res)"
  shows "\<exists>res. find_exploit_loop run index cve ex ps w = Inr res"
  using assms
proof (induction "length ps - index" arbitrary: index cve ex ps w)
  case 0
  then show ?case by (simp add: find_exploit_loop_done)
next
  case (Suc n)
  then have lt: "index < length ps" by simp
  let ?info = "ps ! index"
  obtain cve' ex' w1 where
    step: "(if service_version ?info \<noteq> ''Unknown'' then run (service_version ?info) w
            else Inr ((cve, ex), w)) = Inr ((cve', ex'), w1)"
  proof (cases "service_version ?info \<noteq> ''Unknown''")
    case True
    with Suc.prems lt obtain res where "run (service_version ?info) w = Inr res" by blast
    with True that show ?thesis by (cases res) auto
  next
    case False
    with that show ?thesis by simp
  qed
  let ?v = "Vulnerability (port_number ?info) (service_name ?info) (service_version ?info)
              (first_cve cve') (first_exploit ex')"
  have n: "n = length (ps[index := ?v]) - Suc index"
    using Suc.hyps(2) by simp
  have rest: "\<forall>j. Suc index \<le> j \<and> j < length (ps[index := ?v]) \<longrightarrow>
        service_version (ps[index := ?v] ! j) \<noteq> ''Unknown'' \<longrightarrow>
        (\<forall>w0. \<exists>res. run (service_version (ps[index := ?v] ! j)) w0 = Inr res)"
    using Suc.prems by simp
  have "\<exists>res. find_exploit_loop run (Suc index) (del_first_cve cve') (del_first_exploit ex')
               (ps[index := ?v]) w1 = Inr res"
    by (rule Suc.hyps(1) [OF n rest])
  then show ?case using lt step by (simp add: find_exploit_loop_step)
qed

text \<open>
  Claim C1: let \<open>ps\<close> be the list under \<open>''ports_services''\<close>.  If the
  collaborator raises on none of the versions in \<open>ps\<close>, \<open>find_exploit\<close>
  returns; and whenever it returns, the list under \<open>''ports_services''\<close> has
  the length of \<open>ps\<close> and holds at every index a \<open>Vulnerability\<close> whose
  \<open>port_number\<close>, \<open>service_name\<close> and \<open>service_version\<close> are those of \<open>ps\<close>
  at that index.
\<close>

theorem find_exploit_one_record_per_service:
  assumes "fv ''ports_services'' = Some ps"
  shows "((\<forall>r \<in> set ps. service_version r \<noteq> ''Unknown'' \<longrightarrow>
             (\<forall>w0. \<exists>res. run (service_version r) w0 = Inr res)) \<longrightarrow>
          (\<exists>fv' w'. find_exploit_with run fv w = Inr (fv', w')))
       \<and> (\<forall>fv' w'. find_exploit_with run fv w = Inr (fv', w') \<longrightarrow>
            (\<exists>out. fv' = fv(''ports_services'' \<mapsto> out) \<and> length out = length ps \<and>
               (\<forall>i<length ps. \<exists>c e. out ! i =
                  Vulnerability (port_number (ps ! i)) (service_name (ps ! i))
                    (service_version (ps ! i)) c e)))"
proof (intro conjI impI allI)
  assume ok: "\<forall>r \<in> set ps. service_version r \<noteq> ''Unknown'' \<longrightarrow>
             (\<forall>w0. \<exists>res. run (service_version r) w0 = Inr res)"
  have "\<exists>res. find_exploit_loop run 0 (Some []) [] ps w = Inr res"
    by (rule find_exploit_loop_returns) (use ok in simp)
  then show "\<exists>fv' w'. find_exploit_with run fv w = Inr (fv', w')"
    using assms by (auto simp: find_exploit_with_def)
next
  fix fv' w'
  assume "find_exploit_with run fv w = Inr (fv', w')"
  then obtain out where loop: "find_exploit_loop run 0 (Some []) [] ps w = Inr (out, w')"
    and fv': "fv' = fv(''ports_services'' \<mapsto> out)"
    using assms by (auto simp: find_exploit_with_def split: sum.splits)
  have "length out = length ps \<and>
         (\<forall>j<length ps.
            if j < 0 then out ! j = ps ! j
            else \<exists>c e. True \<and> out ! j =
              Vulnerability (port_number (ps ! j)) (service_name (ps ! j))
                (service_version (ps ! j)) (first_cve c) e)"
    by (rule find_exploit_loop_inv [OF loop, where Q = "\<lambda>_. True"]) simp_all
  then have "length out = length ps \<and>
               (\<forall>i<length ps. \<exists>c e. out ! i =
                  Vulnerability (port_number (ps ! i)) (service_name (ps ! i))
                    (service_version (ps ! i)) c e)"
    by auto
  with fv' show "\<exists>out. fv' = fv(''ports_services'' \<mapsto> out) \<and> length out = length ps \<and>
               (\<forall>i<length ps. \<exists>c e. out ! i =
                  Vulnerability (port_number (ps ! i)) (service_name (ps ! i))
                    (service_version (ps ! i)) c e)"
    by blast
qed


text \<open>The test doubles, evaluated.\<close>

lemma tokens_OpenSSH_7_2: "extracted_service_ver_in_nums ''OpenSSH_7.2'' = [''7.2'']"
  by code_simp

lemma run_stub_OpenSSH_7_2:
  "run_web_scrappers stub_lib stub_net ''OpenSSH_7.2'' w0 =
     Inr ((Some [''https://www.cvedetails.com/cve/CVE-2016-0777/''], []),
          w0 @ [''https://www.cvedetails.com'', ''https://www.cvedetails.com/listing'',
                ''https://www.exploit-db.com''])"
  by (simp add: run_web_scrappers_def scrap_exploits_def scrap_cve_def find_suitable_cve_def
      get_page_content_def tokens_OpenSSH_7_2 scrape_cve_table_page_def cve_url_of_def
      cve_a_tag_def subscript_href_def any_word_in_def stub_lib_def stub_net_def stub_search_def)

lemma run_stub_Apache_2_4_49:
  "run_web_scrappers stub_lib stub_net ''Apache_2.4.49'' w0 =
     Inr ((Some [], [''https://www.exploit-db.com/exploits/50383'',
                     ''https://www.exploit-db.com/exploits/50406'']),
          w0 @ [''https://www.cvedetails.com'', ''https://www.exploit-db.com''])"
  by (simp add: run_web_scrappers_def scrap_exploits_def scrap_cve_def
      stub_net_def stub_search_def)

theorem find_exploit_one_record_per_service_witness:
  "\<exists>fv' w' out.
     find_exploit_with (run_web_scrappers stub_lib stub_net)
       [''ports_services'' \<mapsto> [ServiceRecord 22 ''ssh'' ''OpenSSH_7.2'',
                                   ServiceRecord 80 ''http'' ''Unknown'']] [] = Inr (fv', w')
     \<and> fv' ''ports_services'' = Some out \<and> length out = 2
     \<and> (\<exists>c e. out ! 0 = Vulnerability 22 ''ssh'' ''OpenSSH_7.2'' c e)
     \<and> (\<exists>c e. out ! 1 = Vulnerability 80 ''http'' ''Unknown'' c e)"
proof -
  let ?ps = "[ServiceRecord 22 ''ssh'' ''OpenSSH_7.2'', ServiceRecord 80 ''http'' ''Unknown'']"
  let ?fv = "[''ports_services'' \<mapsto> ?ps]"
  let ?run = "run_web_scrappers stub_lib stub_net :: string \<Rightarrow> string list \<Rightarrow> _"
  have h: "?fv ''ports_services'' = Some ?ps" by simp
  have ok: "\<forall>r \<in> set ?ps. service_version r \<noteq> ''Unknown'' \<longrightarrow>
             (\<forall>w0. \<exists>res. ?run (service_version r) w0 = Inr res)"
    by (simp add: run_stub_OpenSSH_7_2)
  note T = find_exploit_one_record_per_service
    [where fv = ?fv and ps = ?ps and run = ?run and w = "[]", OF h]
  from T ok obtain fv' w' where r: "find_exploit_with ?run ?fv [] = Inr (fv', w')"
    by blast
  with T obtain out where out: "fv' = ?fv(''ports_services'' \<mapsto> out)" "length out = length ?ps"
    and each: "\<forall>i<length ?ps. \<exists>c e. out ! i =
                  Vulnerability (port_number (?ps ! i)) (service_name (?ps ! i))
                    (service_version (?ps ! i)) c e"
    by blast
  from each have "\<exists>c e. out ! 0 = Vulnerability 22 ''ssh'' ''OpenSSH_7.2'' c e"
    by (drule_tac x = 0 in spec) simp
  moreover from each have "\<exists>c e. out ! 1 = Vulnerability 80 ''http'' ''Unknown'' c e"
    by (drule_tac x = 1 in spec) simp
  ultimately show ?thesis using r out by simp
qed

text \<open>
  A record whose version is \<open>''Unknown''\<close> issues no search: the round hands
  the world on as it is, and takes its links from the lists the earlier rounds
  left behind.
\<close>

lemma find_exploit_loop_unknown:
  assumes "index < length ps" and "service_version (ps ! index) = ''Unknown''"
  shows "find_exploit_loop run index cve ex ps w =
     find_exploit_loop run (Suc index) (del_first_cve cve) (del_first_exploit ex)
       (ps[index := Vulnerability (port_number (ps ! index)) (service_name (ps ! index))
             ''Unknown'' (first_cve cve) (first_exploit ex)])
       w"
  using assms by (simp add: find_exploit_loop_step)

text \<open>
  Claim C2 says that a record whose version is \<open>''Unknown''\<close> is emitted with
  both links \<open>''Unknown''\<close>.  After a round \<open>find_exploit\<close> deletes the first URL
  of each list only, and the lists are not reset for a record it does not
  search for.  The exploit search for \<open>''Apache_2.4.49''\<close> yields two URLs; the
  record that follows has the version \<open>''Unknown''\<close> and is emitted with the
  second of them as its exploit link.  The world lists two requests, both of
  the first record.
\<close>

theorem unknown_version_gets_leftover_exploit:
  "find_exploit stub_lib stub_net
     [''ports_services'' \<mapsto> [ServiceRecord 80 ''http'' ''Apache_2.4.49'',
                                 ServiceRecord 22 ''ssh'' ''Unknown'']] [] =
   Inr ([''ports_services'' \<mapsto>
           [Vulnerability 80 ''http'' ''Apache_2.4.49'' ''Unknown''
              ''https://www.exploit-db.com/exploits/50383'',
            Vulnerability 22 ''ssh'' ''Unknown'' ''Unknown''
              ''https://www.exploit-db.com/exploits/50406'']],
        [''https://www.cvedetails.com'', ''https://www.exploit-db.com''])"
  by (simp add: find_exploit_def find_exploit_with_def find_exploit_loop_step
      find_exploit_loop_done run_stub_Apache_2_4_49 first_cve_def first_exploit_def
      del_first_cve_def del_first_exploit_def)

text \<open>Every advisory URL is built by the f-string of \<open>scrape_cve_table_page\<close>.\<close>

lemma cve_url_of_prefix:
  "cve_url_of lib element = Inr url \<Longrightarrow> prefix ''https://www.cvedetails.com'' url"
  by (auto simp: cve_url_of_def split: sum.splits)

lemma scrape_elements_prefix:
  "scrape_elements lib tokens cells = Inr (Some url) \<Longrightarrow> prefix ''https://www.cvedetails.com'' url"
  by (induction cells) (auto split: if_splits sum.splits dest: cve_url_of_prefix)

lemma scrape_cve_table_page_prefix:
  "scrape_cve_table_page lib page tokens = Inr (Some url) \<Longrightarrow>
   prefix ''https://www.cvedetails.com'' url"
  by (auto simp: scrape_cve_table_page_def split: option.splits dest: scrape_elements_prefix)

lemma scrap_cve_prefix:
  "scrap_cve lib net ver w = Inr (Some us, w') \<Longrightarrow>
   \<forall>u \<in> set us. prefix ''https://www.cvedetails.com'' u"
  by (auto simp: scrap_cve_def find_suitable_cve_def
      split: sum.splits list.splits option.splits if_splits prod.splits
      dest: scrape_cve_table_page_prefix)

lemma run_web_scrappers_prefix:
  "run_web_scrappers lib net ver w = Inr ((Some us, ex), w') \<Longrightarrow>
   \<forall>u \<in> set us. prefix ''https://www.cvedetails.com'' u"
  by (auto simp: run_web_scrappers_def split: sum.splits prod.splits dest: scrap_cve_prefix)

lemma first_cve_prefix:
  "\<forall>us. c = Some us \<longrightarrow> (\<forall>u \<in> set us. prefix ''https://www.cvedetails.com'' u) \<Longrightarrow>
   first_cve c = ''Unknown'' \<or> prefix ''https://www.cvedetails.com'' (first_cve c)"
  by (auto simp: first_cve_def split: option.splits list.splits)

lemma del_first_cve_prefix:
  "\<forall>us. c = Some us \<longrightarrow> (\<forall>u \<in> set us. prefix ''https://www.cvedetails.com'' u) \<Longrightarrow>
   \<forall>us. del_first_cve c = Some us \<longrightarrow> (\<forall>u \<in> set us. prefix ''https://www.cvedetails.com'' u)"
  by (auto simp: del_first_cve_def split: option.splits list.splits)

text \<open>
  Claim C10: a string returned by \<open>scrape_cve_table_page\<close> starts with
  \<open>''https://www.cvedetails.com''\<close>, and so does every \<open>cve_link\<close> other than
  \<open>''Unknown''\<close> in the list that \<open>find_exploit\<close> leaves under
  \<open>''ports_services''\<close>.
\<close>

theorem cve_links_start_with_domain:
  "(scrape_cve_table_page lib page_content tokens = Inr (Some url) \<longrightarrow>
      prefix ''https://www.cvedetails.com'' url)
   \<and> (find_exploit lib net fv w = Inr (fv', w') \<and> fv' ''ports_services'' = Some out
        \<and> r \<in> set out \<and> cve_link r \<noteq> ''Unknown'' \<longrightarrow>
      prefix ''https://www.cvedetails.com'' (cve_link r))"
proof (intro conjI impI)
  assume "scrape_cve_table_page lib page_content tokens = Inr (Some url)"
  then show "prefix ''https://www.cvedetails.com'' url"
    by (rule scrape_cve_table_page_prefix)
next
  let ?Q = "\<lambda>c. \<forall>us. c = Some us \<longrightarrow> (\<forall>u \<in> set us. prefix ''https://www.cvedetails.com'' u)"
  assume a: "find_exploit lib net fv w = Inr (fv', w') \<and> fv' ''ports_services'' = Some out
        \<and> r \<in> set out \<and> cve_link r \<noteq> ''Unknown''"
  then obtain ps where
    loop: "find_exploit_loop (run_web_scrappers lib net) 0 (Some []) [] ps w = Inr (out, w')"
    by (auto simp: find_exploit_def find_exploit_with_def split: option.splits sum.splits)
  have inv: "length out = length ps \<and>
         (\<forall>j<length ps.
            if j < 0 then out ! j = ps ! j
            else \<exists>c e. ?Q c \<and> out ! j =
              Vulnerability (port_number (ps ! j)) (service_name (ps ! j))
                (service_version (ps ! j)) (first_cve c) e)"
  proof (rule find_exploit_loop_inv [OF loop, where Q = ?Q])
    fix v w0 cve' ex' w1
    assume "run_web_scrappers lib net v w0 = Inr ((cve', ex'), w1)"
    then show "?Q cve'" by (auto dest: run_web_scrappers_prefix)
  next
    show "?Q (Some [])" by simp
  next
    fix c assume "?Q c" then show "?Q (del_first_cve c)" by (rule del_first_cve_prefix)
  qed
  from a obtain j where j: "j < length out" "out ! j = r"
    by (auto simp: in_set_conv_nth)
  with inv obtain c e where c: "?Q c"
    and r: "r = Vulnerability (port_number (ps ! j)) (service_name (ps ! j))
                (service_version (ps ! j)) (first_cve c) e"
    by auto
  from first_cve_prefix [OF c] a r show "prefix ''https://www.cvedetails.com'' (cve_link r)"
    by auto
qed

theorem cve_links_start_with_domain_witness:
  "scrape_cve_table_page stub_lib ''listing'' [''7.2''] =
     Inr (Some ''https://www.cvedetails.com/cve/CVE-2016-0777/'')
   \<and> find_exploit stub_lib stub_net
       [''ports_services'' \<mapsto> [ServiceRecord 22 ''ssh'' ''OpenSSH_7.2'']] [] =
     Inr ([''ports_services'' \<mapsto>
             [Vulnerability 22 ''ssh'' ''OpenSSH_7.2''
                ''https://www.cvedetails.com/cve/CVE-2016-0777/'' ''Unknown'']],
          [''https://www.cvedetails.com'', ''https://www.cvedetails.com/listing'',
           ''https://www.exploit-db.com''])
   \<and> prefix ''https://www.cvedetails.com''
       (cve_link (Vulnerability 22 ''ssh'' ''OpenSSH_7.2''
                    ''https://www.cvedetails.com/cve/CVE-2016-0777/'' ''Unknown''))"
proof -
  let ?r = "Vulnerability 22 ''ssh'' ''OpenSSH_7.2''
              ''https://www.cvedetails.com/cve/CVE-2016-0777/'' ''Unknown''"
  let ?fv' = "[''ports_services'' \<mapsto> [?r]]"
  have s: "scrape_cve_table_page stub_lib ''listing'' [''7.2''] =
     Inr (Some ''https://www.cvedetails.com/cve/CVE-2016-0777/'')"
    by (simp add: scrape_cve_table_page_def cve_url_of_def cve_a_tag_def subscript_href_def
        any_word_in_def stub_lib_def)
  have f: "find_exploit stub_lib stub_net
       [''ports_services'' \<mapsto> [ServiceRecord 22 ''ssh'' ''OpenSSH_7.2'']] [] =
     Inr (?fv', [''https://www.cvedetails.com'', ''https://www.cvedetails.com/listing'',
           ''https://www.exploit-db.com''])"
    by (simp add: find_exploit_def find_exploit_with_def find_exploit_loop_step
      find_exploit_loop_done run_stub_OpenSSH_7_2 first_cve_def first_exploit_def
      del_first_cve_def del_first_exploit_def)
  have o: "?fv' ''ports_services'' = Some [?r]" and m: "?r \<in> set [?r]"
    and n: "cve_link ?r \<noteq> ''Unknown''"
    by simp_all
  from cve_links_start_with_domain [THEN conjunct2, rule_format, OF conjI [OF f conjI [OF o conjI [OF m n]]]]
  have "prefix ''https://www.cvedetails.com'' (cve_link ?r)" .
  moreover from cve_links_start_with_domain [THEN conjunct1, rule_format, OF s]
  have "prefix ''https://www.cvedetails.com'' ''https://www.cvedetails.com/cve/CVE-2016-0777/''" .
  ultimately show ?thesis using s f by simp
qed

end
